theory Spec2Isabelle
  imports Complex_Main "HOL-Library.Sublist"
begin

section \<open>Python values shared by the modules\<close>

text \<open>
  Python's \<^verbatim>\<open>pat in s\<close> on strings: \<open>pat\<close> occurs in \<open>s\<close> as a contiguous block.
  The test walks over the start positions of \<open>s\<close>.
\<close>

fun str_contains :: "string \<Rightarrow> string \<Rightarrow> bool" where
  "str_contains pat [] = (pat = [])"
| "str_contains pat (c # cs) = (prefix pat (c # cs) \<or> str_contains pat cs)"

datatype py_error = TypeError | ValueError | OtherError

text \<open>
  A call into a collaborator (an HTTP exchange, a provider object) either returns a value or
  raises; \<open>Raises msg\<close> carries \<^verbatim>\<open>str(e)\<close>.
\<close>

datatype 'a outcome = Returns 'a | Raises string

text \<open>
  \<^verbatim>\<open>datetime\<close> values. \<^verbatim>\<open>_parse_datetime\<close> produces both kinds: the formats with
  \<^verbatim>\<open>%z\<close> give timezone-aware values (an instant, here in microseconds UTC), the format
  \<^verbatim>\<open>%Y-%m-%d\<close> gives a naive value (a wall-clock reading). Python orders two naive or two
  aware values and raises \<^verbatim>\<open>TypeError\<close> when asked to order a naive against an aware one.
\<close>

datatype py_datetime = Naive int | Aware int

fun dt_less :: "py_datetime \<Rightarrow> py_datetime \<Rightarrow> py_error + bool" where
  "dt_less (Naive a) (Naive b) = Inr (a < b)"
| "dt_less (Aware a) (Aware b) = Inr (a < b)"
| "dt_less (Naive a) (Aware b) = Inl TypeError"
| "dt_less (Aware a) (Naive b) = Inl TypeError"

section \<open>sitemap\_parser.py\<close>

subsection \<open>The product URL predicates\<close>

text \<open>
  \<^verbatim>\<open>
  def filter_walmart_product_urls(url):
      if '/ip/' not in url and '/produit/' not in url:
          return False
      disallowed_patterns = ['/search', '/recherche', '/cart', '/panier',
                             '/sign-in', '/account', '/kiosk/', '+', '?f=']
      for pattern in disallowed_patterns:
          if pattern in url:
              return False
      return True
  \<close>
\<close>

definition disallowed_patterns :: "string list" where
  "disallowed_patterns =
     [''/search'', ''/recherche'', ''/cart'', ''/panier'', ''/sign-in'',
      ''/account'', ''/kiosk/'', ''+'', ''?f='']"

text \<open>The \<^verbatim>\<open>for pattern in ...\<close> loop: false at the first pattern found in the URL.\<close>

fun no_pattern_in :: "string list \<Rightarrow> string \<Rightarrow> bool" where
  "no_pattern_in [] url = True"
| "no_pattern_in (pattern # rest) url =
     (if str_contains pattern url then False else no_pattern_in rest url)"

definition filter_walmart_product_urls :: "string \<Rightarrow> bool" where
  "filter_walmart_product_urls url =
     (if \<not> str_contains ''/ip/'' url \<and> \<not> str_contains ''/produit/'' url then False
      else no_pattern_in disallowed_patterns url)"

text \<open>The lambda that \<^verbatim>\<open>get_product_urls\<close> passes as \<^verbatim>\<open>url_filter\<close>.\<close>

definition is_product_url :: "string \<Rightarrow> bool" where
  "is_product_url url = (str_contains ''/ip/'' url \<or> str_contains ''/produit/'' url)"

subsection \<open>Entries and documents\<close>

record SitemapEntry =
  loc :: string
  lastmod :: "py_datetime option"
  changefreq :: "string option"
  priority :: "real option"

text \<open>
  What \<^verbatim>\<open>_fetch_sitemap_content\<close> followed by \<^verbatim>\<open>_parse_sitemap_xml\<close> gives for one URL:
  an exception (a transport error, an HTTP error status, a \<^verbatim>\<open>priority\<close> that is not a
  number), or the pair \<^verbatim>\<open>(sitemap_urls, url_entries)\<close>. Malformed XML is the pair of two
  empty lists. The sites reachable in one traversal are a finite table from URL to
  response; a URL outside the table answers with an error.
\<close>

datatype fetched = FetchFailed | Document "string list" "SitemapEntry list"

type_synonym web = "(string \<times> fetched) list"

definition fetch_and_parse :: "web \<Rightarrow> string \<Rightarrow> fetched" where
  "fetch_and_parse web url = (case map_of web url of None \<Rightarrow> FetchFailed | Some r \<Rightarrow> r)"

subsection \<open>The entry loop of \<^verbatim>\<open>parse_sitemap\<close>\<close>

text \<open>
  \<^verbatim>\<open>
  for entry in entries:
      if since and entry.lastmod and entry.lastmod < since:
          continue
      if url_filter and not url_filter(entry.loc):
          continue
      yield entry
      urls_yielded += 1
      if max_urls and urls_yielded >= max_urls:
          return
  \<close>
  \<^verbatim>\<open>since\<close>, \<^verbatim>\<open>entry.lastmod\<close> and \<^verbatim>\<open>url_filter\<close> are true when present; \<^verbatim>\<open>max_urls\<close> is
  true when present and not 0.
\<close>

definition older_than_since :: "py_datetime option \<Rightarrow> SitemapEntry \<Rightarrow> py_error + bool" where
  "older_than_since since entry =
     (case since of
        None \<Rightarrow> Inr False
      | Some t \<Rightarrow> (case lastmod entry of None \<Rightarrow> Inr False | Some lm \<Rightarrow> dt_less lm t))"

definition filter_rejects :: "(string \<Rightarrow> bool) option \<Rightarrow> string \<Rightarrow> bool" where
  "filter_rejects url_filter url = (case url_filter of None \<Rightarrow> False | Some f \<Rightarrow> \<not> f url)"

definition limit_reached :: "int option \<Rightarrow> nat \<Rightarrow> bool" where
  "limit_reached max_urls urls_yielded =
     (case max_urls of None \<Rightarrow> False | Some m \<Rightarrow> m \<noteq> 0 \<and> m \<le> int urls_yielded)"

text \<open>
  The loop leaves in three ways: the entries are exhausted, the generator returns at the
  bound, or the comparison raises (the \<^verbatim>\<open>except Exception\<close> around the loop then drops
  the rest of this document). The result is the entries yielded, the new value of
  \<^verbatim>\<open>urls_yielded\<close> and the way out.
\<close>

datatype loop_exit = Exhausted | Returned | Raised

fun yield_entries ::
  "py_datetime option \<Rightarrow> (string \<Rightarrow> bool) option \<Rightarrow> int option \<Rightarrow> nat \<Rightarrow> SitemapEntry list
     \<Rightarrow> SitemapEntry list \<times> nat \<times> loop_exit" where
  "yield_entries since url_filter max_urls n [] = ([], n, Exhausted)"
| "yield_entries since url_filter max_urls n (entry # rest) =
     (case older_than_since since entry of
        Inl err \<Rightarrow> ([], n, Raised)
      | Inr older \<Rightarrow>
          if older then yield_entries since url_filter max_urls n rest
          else if filter_rejects url_filter (loc entry)
          then yield_entries since url_filter max_urls n rest
          else if limit_reached max_urls (Suc n) then ([entry], Suc n, Returned)
          else (case yield_entries since url_filter max_urls (Suc n) rest of
                  (ys, n', ex) \<Rightarrow> (entry # ys, n', ex)))"

subsection \<open>The queue loop of \<^verbatim>\<open>parse_sitemap\<close>\<close>

text \<open>
  The generator is modelled by the trace it produces: every request sent and every entry
  yielded, in order. The arguments after the parameters of \<^verbatim>\<open>parse_sitemap\<close> are the loop
  state: \<^verbatim>\<open>sitemap_queue\<close>, \<^verbatim>\<open>visited_sitemaps\<close> and \<^verbatim>\<open>urls_yielded\<close>.
\<close>

datatype event = Fetch string | Yield SitemapEntry

function traverse ::
  "web \<Rightarrow> bool \<Rightarrow> py_datetime option \<Rightarrow> (string \<Rightarrow> bool) option \<Rightarrow> int option
     \<Rightarrow> string list \<Rightarrow> string set \<Rightarrow> nat \<Rightarrow> event list" where
  "traverse web recursive since url_filter max_urls [] visited n = []"
| "traverse web recursive since url_filter max_urls (current_url # queue) visited n =
     (if current_url \<in> visited
      then traverse web recursive since url_filter max_urls queue visited n
      else (case fetch_and_parse web current_url of
              FetchFailed \<Rightarrow>
                Fetch current_url #
                traverse web recursive since url_filter max_urls queue
                  (insert current_url visited) n
            | Document nested ents \<Rightarrow>
                Fetch current_url #
                map Yield (fst (yield_entries since url_filter max_urls n ents)) @
                (if snd (snd (yield_entries since url_filter max_urls n ents)) = Returned
                 then []
                 else traverse web recursive since url_filter max_urls
                        (if recursive \<and> nested \<noteq> [] then queue @ nested else queue)
                        (insert current_url visited)
                        (fst (snd (yield_entries since url_filter max_urls n ents))))))"
  by pat_completeness auto
termination
proof (relation "measures [\<lambda>(web, recursive, since, url_filter, max_urls, queue, visited, n).
                             card (fst ` set web - visited),
                           \<lambda>(web, recursive, since, url_filter, max_urls, queue, visited, n).
                             length queue]", goal_cases)
  case 1
  show ?case by simp
next
  case (2 web recursive since url_filter max_urls current_url queue visited n)
  then show ?case by simp
next
  case (3 web recursive since url_filter max_urls current_url queue visited n)
  have "card (fst ` set web - insert current_url visited) \<le> card (fst ` set web - visited)"
    by (rule card_mono) auto
  then show ?case by auto
next
  case (4 web recursive since url_filter max_urls current_url queue visited n nested ents)
  from 4(2) have "map_of web current_url \<noteq> None"
    by (auto simp add: fetch_and_parse_def split: option.splits)
  then have "current_url \<in> fst ` set web"
    by (simp add: map_of_eq_None_iff)
  with 4(1) have "fst ` set web - insert current_url visited \<subset> fst ` set web - visited"
    by auto
  then have "card (fst ` set web - insert current_url visited) < card (fst ` set web - visited)"
    by (intro psubset_card_mono) auto
  then show ?case by simp
qed

fun yielded :: "event list \<Rightarrow> SitemapEntry list" where
  "yielded [] = []"
| "yielded (Fetch u # evs) = yielded evs"
| "yielded (Yield e # evs) = e # yielded evs"

fun fetches :: "event list \<Rightarrow> string list" where
  "fetches [] = []"
| "fetches (Fetch u # evs) = u # fetches evs"
| "fetches (Yield e # evs) = fetches evs"

definition parse_sitemap ::
  "web \<Rightarrow> string \<Rightarrow> bool \<Rightarrow> py_datetime option \<Rightarrow> (string \<Rightarrow> bool) option \<Rightarrow> int option
     \<Rightarrow> event list" where
  "parse_sitemap web url recursive since url_filter max_urls =
     traverse web recursive since url_filter max_urls [url] {} 0"

text \<open>\<^verbatim>\<open>get_product_urls\<close> realises the generator as a list.\<close>

definition get_product_urls ::
  "web \<Rightarrow> string \<Rightarrow> int option \<Rightarrow> py_datetime option \<Rightarrow> SitemapEntry list" where
  "get_product_urls web sitemap_url max_urls since =
     yielded (parse_sitemap web sitemap_url True since (Some is_product_url) max_urls)"

subsection \<open>Auxiliary notions for the statements about traces\<close>

text \<open>The part of a trace up to and including its \<open>j\<close>-th yield (\<open>j\<close> at least 1).\<close>

fun until_kth_yield :: "nat \<Rightarrow> event list \<Rightarrow> event list" where
  "until_kth_yield j [] = []"
| "until_kth_yield j (Fetch u # evs) = Fetch u # until_kth_yield j evs"
| "until_kth_yield j (Yield e # evs) =
     Yield e # (if j \<le> 1 then [] else until_kth_yield (j - 1) evs)"

text \<open>Every sitemap URL that some document of the table refers to.\<close>

definition referenced :: "web \<Rightarrow> string list" where
  "referenced web =
     concat (map (\<lambda>(u, r). case r of FetchFailed \<Rightarrow> [] | Document nested ents \<Rightarrow> nested) web)"

subsection \<open>Sample sites\<close>

definition product_entry :: "string \<Rightarrow> py_datetime option \<Rightarrow> SitemapEntry" where
  "product_entry url lm = \<lparr>loc = url, lastmod = lm, changefreq = None, priority = None\<rparr>"

text \<open>Two index documents that refer to each other, and one URL set.\<close>

definition cyclic_web :: web where
  "cyclic_web =
     [(''https://shop.example/a.xml'', Document [''https://shop.example/b.xml''] []),
      (''https://shop.example/b.xml'',
         Document [''https://shop.example/a.xml'', ''https://shop.example/c.xml''] []),
      (''https://shop.example/c.xml'',
         Document []
           [product_entry ''/en/ip/widget/1'' None,
            product_entry ''/en/help'' None,
            product_entry ''/en/ip/widget/2'' None,
            product_entry ''/fr/produit/3'' None])]"

text \<open>
  One URL set whose first entry carries \<^verbatim>\<open><lastmod>2024-06-01T00:00:00Z</lastmod>\<close> (parsed
  to an aware value) and whose second entry has no \<^verbatim>\<open>lastmod\<close>.
\<close>

definition mixed_web :: web where
  "mixed_web =
     [(''https://shop.example/s.xml'',
         Document []
           [product_entry ''/en/ip/widget/1'' (Some (Aware 1717200000000000)),
            product_entry ''/en/ip/widget/2'' None])]"

section \<open>captcha\_solver.py\<close>

subsection \<open>Solutions and providers\<close>

record CaptchaSolution =
  success :: bool
  token :: "string option"
  solution :: "(string \<times> string) list option"
  error :: "string option"
  task_id :: "string option"
  cost :: "real option"
  solve_time :: "real option"

text \<open>\<^verbatim>\<open>CaptchaSolution(success=False, error=msg)\<close>: every other field keeps its default.\<close>

definition failed_solution :: "string \<Rightarrow> CaptchaSolution" where
  "failed_solution msg =
     \<lparr>success = False, token = None, solution = None, error = Some msg,
      task_id = None, cost = None, solve_time = None\<rparr>"

record px_request =
  site_url :: string
  data_blob :: "string option"
  user_agent :: "string option"

text \<open>
  A provider object as the manager sees it (\<^verbatim>\<open>CaptchaSolverBase\<close>): what its
  \<^verbatim>\<open>solve_perimeterx\<close> answers to a request at the \<open>i\<close>-th call of one manager call
  (counted from 0), and what its \<^verbatim>\<open>get_balance\<close> answers. Both may raise.
\<close>

record solver =
  solver_solve_perimeterx :: "px_request \<Rightarrow> nat \<Rightarrow> CaptchaSolution outcome"
  solver_get_balance :: "real outcome"

subsection \<open>The balance queries of the two providers\<close>




subsection \<open>The manager\<close>

text \<open>
  \<^verbatim>\<open>self.solvers\<close> is a dictionary; it is kept as the list of its items, in the order of
  \<^verbatim>\<open>items()\<close>.
\<close>

record CaptchaSolverManager =
  enabled :: bool
  primary_provider :: string
  fallback_provider :: "string option"
  timeout :: int
  max_retries :: int
  solvers :: "(string \<times> solver) list"

definition is_available :: "CaptchaSolverManager \<Rightarrow> bool" where
  "is_available m = (enabled m \<and> length (solvers m) > 0)"

text \<open>
  \<^verbatim>\<open>
  providers_to_try = [self.primary_provider]
  if self.fallback_provider and self.fallback_provider != self.primary_provider:
      providers_to_try.append(self.fallback_provider)
  \<close>
  An empty string is false in Python, like \<^verbatim>\<open>None\<close>.
\<close>

definition providers_to_try :: "CaptchaSolverManager \<Rightarrow> string list" where
  "providers_to_try m =
     (case fallback_provider m of
        None \<Rightarrow> [primary_provider m]
      | Some fb \<Rightarrow>
          if fb \<noteq> [] \<and> fb \<noteq> primary_provider m then [primary_provider m, fb]
          else [primary_provider m])"

text \<open>
  The inner loop \<^verbatim>\<open>for attempt in range(self.max_retries)\<close> for one provider. It carries
  \<^verbatim>\<open>last_error\<close> and gives the successful result if there is one, the new
  \<^verbatim>\<open>last_error\<close>, and the calls made, each as provider name and attempt number.
  \<^verbatim>\<open>
  try:
      result = solver.solve_perimeterx(site_url, data_blob, user_agent)
      if result.success:
          return result
      last_error = result.error
  except Exception as e:
      last_error = str(e)
  \<close>
\<close>

fun try_attempts ::
  "string \<Rightarrow> (nat \<Rightarrow> CaptchaSolution outcome) \<Rightarrow> nat list \<Rightarrow> string option
     \<Rightarrow> CaptchaSolution option \<times> string option \<times> (string \<times> nat) list" where
  "try_attempts provider_name answer [] last_error = (None, last_error, [])"
| "try_attempts provider_name answer (attempt # later) last_error =
     (case answer attempt of
        Returns result \<Rightarrow>
          if success result then (Some result, last_error, [(provider_name, attempt)])
          else (case try_attempts provider_name answer later (error result) of
                  (r, le, calls) \<Rightarrow> (r, le, (provider_name, attempt) # calls))
      | Raises msg \<Rightarrow>
          (case try_attempts provider_name answer later (Some msg) of
             (r, le, calls) \<Rightarrow> (r, le, (provider_name, attempt) # calls)))"

text \<open>
  The outer loop \<^verbatim>\<open>for provider_name in providers_to_try\<close>; a name without an
  initialised solver is skipped.
\<close>

fun try_providers ::
  "CaptchaSolverManager \<Rightarrow> px_request \<Rightarrow> string list \<Rightarrow> string option
     \<Rightarrow> CaptchaSolution option \<times> string option \<times> (string \<times> nat) list" where
  "try_providers m req [] last_error = (None, last_error, [])"
| "try_providers m req (provider_name # later) last_error =
     (case map_of (solvers m) provider_name of
        None \<Rightarrow> try_providers m req later last_error
      | Some s \<Rightarrow>
          (case try_attempts provider_name (solver_solve_perimeterx s req)
                  [0 ..< nat (max_retries m)] last_error of
             (Some result, le, calls) \<Rightarrow> (Some result, le, calls)
           | (None, le, calls) \<Rightarrow>
               (case try_providers m req later le of
                  (r, le', calls') \<Rightarrow> (r, le', calls @ calls'))))"

text \<open>\<^verbatim>\<open>f"{last_error}"\<close>: the string itself, or \<^verbatim>\<open>None\<close> printed.\<close>

definition format_last_error :: "string option \<Rightarrow> string" where
  "format_last_error last_error = (case last_error of None \<Rightarrow> ''None'' | Some msg \<Rightarrow> msg)"

text \<open>
  \<^verbatim>\<open>CaptchaSolverManager.solve_perimeterx\<close>: the solution returned, and the calls it made
  to providers.
\<close>

definition solve_perimeterx ::
  "CaptchaSolverManager \<Rightarrow> px_request \<Rightarrow> CaptchaSolution \<times> (string \<times> nat) list" where
  "solve_perimeterx m req =
     (if \<not> is_available m
      then (failed_solution ''CAPTCHA solving is not configured or enabled'', [])
      else (case try_providers m req (providers_to_try m) None of
              (Some result, le, calls) \<Rightarrow> (result, calls)
            | (None, le, calls) \<Rightarrow>
                (failed_solution
                   (''All CAPTCHA solvers failed. Last error: '' @ format_last_error le),
                 calls)))"



subsection \<open>The contract of \<^verbatim>\<open>solve_perimeterx\<close> in the words of the specification\<close>












subsection \<open>Sample managers\<close>









text \<open>Not enabled: \<^verbatim>\<open>_init_solvers\<close> is not run and \<^verbatim>\<open>solvers\<close> stays empty.\<close>

definition disabled_manager :: CaptchaSolverManager where
  "disabled_manager =
     \<lparr>enabled = False, primary_provider = ''capsolver'', fallback_provider = None,
      timeout = 120, max_retries = 2, solvers = []\<rparr>"




section \<open>walmart\_canada.py: visiting a product page\<close>

text \<open>
  The fields of the scraper that \<^verbatim>\<open>scrape_product_page\<close> reads and writes, and a log of
  the URLs handed to \<^verbatim>\<open>page.goto\<close>.
\<close>

record crawl_state =
  consecutive_errors :: int
  max_consecutive_errors :: int
  stats_errors :: int
  captcha_solve_attempts :: int
  captcha_solve_successes :: int
  goto_log :: "string list"

text \<open>
  What the browser and the other collaborators do during one visit. \<open>'p\<close> is
  \<^verbatim>\<open>ProductRecord\<close>. The browser is started; the rate limiter only waits.
  \<^item> \<open>goto_result\<close>: \<^verbatim>\<open>page.goto\<close> returns, raises \<^verbatim>\<open>PlaywrightTimeout\<close>, or raises
    something else;
  \<^item> \<open>blocked\<close>: \<^verbatim>\<open>_is_blocked()\<close> after the load;
  \<^item> \<open>page_url\<close>: \<^verbatim>\<open>page.url\<close> after the load;
  \<^item> \<open>captcha_solver\<close>, \<open>px_data\<close>, \<open>browser_user_agent\<close>: the manager and what
    \<^verbatim>\<open>_extract_px_data\<close> and the browser configuration give;
  \<^item> \<open>injection_ok\<close>: setting the cookie, the script and the reload raise nothing;
  \<^item> \<open>blocked_after_reload\<close>: \<^verbatim>\<open>_is_blocked()\<close> after the reload;
  \<^item> \<open>structured\<close>: the record parsed from \<^verbatim>\<open>__NEXT_DATA__\<close>, if any;
  \<^item> \<open>fallback_to_dom\<close>, \<open>dom_product\<close>: the configuration flag and what \<^verbatim>\<open>_extract_from_dom\<close>
    gives.
\<close>

datatype goto_outcome = Loaded | PlaywrightTimeout | GotoError

record 'p visit_env =
  goto_result :: goto_outcome
  blocked :: bool
  page_url :: string
  captcha_solver :: CaptchaSolverManager
  px_data :: "string option"
  browser_user_agent :: "string option"
  injection_ok :: bool
  blocked_after_reload :: bool
  structured :: "'p option"
  fallback_to_dom :: bool
  dom_product :: "'p option"

text \<open>
  \<^verbatim>\<open>_handle_captcha\<close>. The log line \<^verbatim>\<open>f"CAPTCHA solved in {result.solve_time:.1f}s"\<close>
  raises \<^verbatim>\<open>TypeError\<close> when \<^verbatim>\<open>solve_time\<close> is \<^verbatim>\<open>None\<close>; \<^verbatim>\<open>if result.token\<close> is false for
  \<^verbatim>\<open>None\<close> and for the empty string.
\<close>

definition handle_captcha ::
  "'p visit_env \<Rightarrow> crawl_state \<Rightarrow> (py_error + bool) \<times> crawl_state" where
  "handle_captcha env st =
     (if \<not> is_available (captcha_solver env) then (Inr False, st)
      else
        let st1 = st\<lparr>captcha_solve_attempts := captcha_solve_attempts st + 1\<rparr>;
            result = fst (solve_perimeterx (captcha_solver env)
                       \<lparr>site_url = page_url env, data_blob = px_data env,
                        user_agent = browser_user_agent env\<rparr>)
        in if \<not> success result then (Inr False, st1)
           else if solve_time result = None then (Inl TypeError, st1)
           else
             let st2 = st1\<lparr>captcha_solve_successes := captcha_solve_successes st1 + 1\<rparr>
             in if token result \<noteq> None \<and> token result \<noteq> Some []
                then (if injection_ok env
                      then (if \<not> blocked_after_reload env then (Inr True, st2)
                            else (Inr False, st2))
                      else (Inr False, st2))
                else (Inr False, st2))"

text \<open>
  \<^verbatim>\<open>
  def _handle_block(self, url):
      if self.captcha_solver.is_available():
          if self._handle_captcha():
              return True
      self._human_delay(10, 20)
      return False
  \<close>
\<close>

definition handle_block ::
  "'p visit_env \<Rightarrow> string \<Rightarrow> crawl_state \<Rightarrow> (py_error + bool) \<times> crawl_state" where
  "handle_block env url st =
     (if is_available (captcha_solver env)
      then (case handle_captcha env st of
              (Inl err, st') \<Rightarrow> (Inl err, st')
            | (Inr cleared, st') \<Rightarrow> if cleared then (Inr True, st') else (Inr False, st'))
      else (Inr False, st))"

text \<open>The two \<^verbatim>\<open>except\<close> branches and the unresolved block count an error the same way.\<close>

definition count_error :: "crawl_state \<Rightarrow> crawl_state" where
  "count_error st =
     st\<lparr>consecutive_errors := consecutive_errors st + 1, stats_errors := stats_errors st + 1\<rparr>"

text \<open>
  The extraction after the block check:
  \<^verbatim>\<open>
  self.consecutive_errors = 0
  next_data = self._extract_next_data()
  if next_data:
      product = self._parse_product_from_next_data(next_data, product_url)
      if product:
          return product
  if self.config.get('extraction', {}).get('fallback_to_dom', False):
      return self._extract_from_dom(product_url)
  return None
  \<close>
\<close>

definition extract_product :: "'p visit_env \<Rightarrow> crawl_state \<Rightarrow> 'p option \<times> crawl_state" where
  "extract_product env st =
     (let st' = st\<lparr>consecutive_errors := 0\<rparr>
      in case structured env of
           Some product \<Rightarrow> (Some product, st')
         | None \<Rightarrow> if fallback_to_dom env then (dom_product env, st') else (None, st'))"

text \<open>
  \<^verbatim>\<open>
  try:
      self.rate_limiter.adaptive_wait(self.consecutive_errors)
      self.page.goto(product_url, ...)
      self._human_delay(1, 2)
      if self._is_blocked():
          if self._handle_block(product_url):
              logging.info("Block bypassed, continuing extraction")
          else:
              self.consecutive_errors += 1
              self.stats['errors'] += 1
              if self.consecutive_errors >= self.max_consecutive_errors:
                  logging.error("Too many consecutive errors, stopping")
                  return None
              return None
      ...
  except PlaywrightTimeout:
      self.consecutive_errors += 1; self.stats['errors'] += 1; return None
  except Exception as e:
      self.consecutive_errors += 1; self.stats['errors'] += 1; return None
  \<close>
\<close>

definition scrape_product_page ::
  "'p visit_env \<Rightarrow> string \<Rightarrow> crawl_state \<Rightarrow> 'p option \<times> crawl_state" where
  "scrape_product_page env product_url st =
     (let st0 = st\<lparr>goto_log := goto_log st @ [product_url]\<rparr>
      in case goto_result env of
           PlaywrightTimeout \<Rightarrow> (None, count_error st0)
         | GotoError \<Rightarrow> (None, count_error st0)
         | Loaded \<Rightarrow>
             if blocked env
             then (case handle_block env product_url st0 of
                     (Inl err, st1) \<Rightarrow> (None, count_error st1)
                   | (Inr bypassed, st1) \<Rightarrow>
                       if bypassed then extract_product env st1
                       else (let st2 = count_error st1
                             in if consecutive_errors st2 \<ge> max_consecutive_errors st2
                                then (None, st2)
                                else (None, st2)))
             else extract_product env st0)"

text \<open>
  Successive calls of \<^verbatim>\<open>scrape_product_page\<close> on one scraper, each with the URL and
  what the collaborators do during that visit: the records returned and the final state.
\<close>

fun scrape_all ::
  "('p visit_env \<times> string) list \<Rightarrow> crawl_state \<Rightarrow> 'p option list \<times> crawl_state" where
  "scrape_all [] st = ([], st)"
| "scrape_all ((env, url) # later) st =
     (case scrape_product_page env url st of
        (r, st') \<Rightarrow> (case scrape_all later st' of (rs, st'') \<Rightarrow> (r # rs, st'')))"

text \<open>A visit is a failed one when the load raises or a block stays unresolved.\<close>

definition visit_fails :: "'p visit_env \<Rightarrow> string \<Rightarrow> crawl_state \<Rightarrow> bool" where
  "visit_fails env url st =
     (goto_result env \<noteq> Loaded \<or>
      (blocked env \<and>
       fst (handle_block env url (st\<lparr>goto_log := goto_log st @ [url]\<rparr>)) \<noteq> Inr True))"

subsection \<open>Sample visits\<close>

text \<open>The state after \<^verbatim>\<open>__init__\<close>.\<close>

definition initial_state :: crawl_state where
  "initial_state =
     \<lparr>consecutive_errors = 0, max_consecutive_errors = 5, stats_errors = 0,
      captcha_solve_attempts = 0, captcha_solve_successes = 0, goto_log = []\<rparr>"

text \<open>A page showing a block while no solver is configured, and a page that loads and parses.\<close>

definition blocked_visit :: "string visit_env" where
  "blocked_visit =
     \<lparr>goto_result = Loaded, blocked = True,
      page_url = ''https://www.walmart.ca/blocked'', captcha_solver = disabled_manager,
      px_data = None, browser_user_agent = Some ''Mozilla/5.0'', injection_ok = True,
      blocked_after_reload = True, structured = None, fallback_to_dom = False,
      dom_product = None\<rparr>"

definition good_visit :: "string visit_env" where
  "good_visit =
     \<lparr>goto_result = Loaded, blocked = False,
      page_url = ''https://www.walmart.ca/en/ip/f/6'', captcha_solver = disabled_manager,
      px_data = None, browser_user_agent = Some ''Mozilla/5.0'', injection_ok = True,
      blocked_after_reload = False, structured = Some ''Widget'', fallback_to_dom = False,
      dom_product = None\<rparr>"

definition five_blocked :: "(string visit_env \<times> string) list" where
  "five_blocked =
     [(blocked_visit, ''/en/ip/a/1''), (blocked_visit, ''/en/ip/b/2''),
      (blocked_visit, ''/en/ip/c/3''), (blocked_visit, ''/en/ip/d/4''),
      (blocked_visit, ''/en/ip/e/5'')]"

section \<open>Facts about the string test and the URL predicate\<close>

lemma str_contains_sublist: "str_contains pat s = sublist pat s"
  by (induction s) (simp_all add: sublist_Cons_right)

lemma str_contains_iff: "str_contains pat s = (\<exists>before after. s = before @ pat @ after)"
  by (simp add: str_contains_sublist sublist_def)

lemma no_pattern_in_iff:
  "no_pattern_in ps url = (\<forall>p \<in> set ps. \<not> str_contains p url)"
  by (induction ps) simp_all

section \<open>Facts about the traversal\<close>

lemma fetches_append: "fetches (xs @ ys) = fetches xs @ fetches ys"
  by (induction xs rule: fetches.induct) simp_all

lemma yielded_append: "yielded (xs @ ys) = yielded xs @ yielded ys"
  by (induction xs rule: yielded.induct) simp_all

lemma fetches_map_Yield: "fetches (map Yield es) = []"
  by (induction es) simp_all

lemma yielded_map_Yield: "yielded (map Yield es) = es"
  by (induction es) simp_all

lemma yield_entries_zero:
  "yield_entries since url_filter (Some 0) n es = yield_entries since url_filter None n es"
  by (induction es arbitrary: n) (simp_all add: limit_reached_def split: sum.splits)

lemma traverse_zero:
  "m = Some 0 \<Longrightarrow>
   traverse web recursive since url_filter m queue visited n =
   traverse web recursive since url_filter None queue visited n"
proof (induction web recursive since url_filter m queue visited n rule: traverse.induct)
  case (1 web recursive since url_filter max_urls visited n)
  show ?case by simp
next
  case (2 web recursive since url_filter max_urls current_url queue visited n)
  show ?case
  proof (cases "current_url \<in> visited")
    case True
    with 2 show ?thesis by simp
  next
    case False
    show ?thesis
    proof (cases "fetch_and_parse web current_url")
      case FetchFailed
      with 2 False show ?thesis by simp
    next
      case (Document nested ents)
      with 2 False show ?thesis by (simp add: yield_entries_zero)
    qed
  qed
qed

lemma parse_sitemap_zero:
  "parse_sitemap web url recursive since url_filter (Some 0) =
     parse_sitemap web url recursive since url_filter None"
  unfolding parse_sitemap_def by (rule traverse_zero) (rule refl)

lemma traverse_fetches_fresh:
  "distinct (fetches (traverse web recursive since url_filter m queue visited n)) \<and>
   set (fetches (traverse web recursive since url_filter m queue visited n)) \<inter> visited = {}"
proof (induction web recursive since url_filter m queue visited n rule: traverse.induct)
  case (1 web recursive since url_filter max_urls visited n)
  show ?case by simp
next
  case (2 web recursive since url_filter max_urls current_url queue visited n)
  show ?case
  proof (cases "current_url \<in> visited")
    case True
    with 2 show ?thesis by simp
  next
    case False
    show ?thesis
    proof (cases "fetch_and_parse web current_url")
      case FetchFailed
      with 2 False show ?thesis by auto
    next
      case (Document nested ents)
      with 2 False show ?thesis
        by (auto simp add: fetches_append fetches_map_Yield)
    qed
  qed
qed

lemma yield_entries_unbounded:
  "snd (snd (yield_entries since url_filter None n es)) \<noteq> Returned \<and>
   fst (snd (yield_entries since url_filter None n es)) =
     n + length (fst (yield_entries since url_filter None n es))"
proof (induction es arbitrary: n)
  case Nil
  show ?case by simp
next
  case (Cons entry rest)
  show ?case
    using Cons.IH [of n] Cons.IH [of "Suc n"]
    by (auto simp add: limit_reached_def split: sum.splits prod.splits)
qed

lemma yield_entries_bounded:
  "n < k \<Longrightarrow>
   yield_entries since url_filter (Some (int k)) n es =
     (if n + length (fst (yield_entries since url_filter None n es)) < k
      then yield_entries since url_filter None n es
      else (take (k - n) (fst (yield_entries since url_filter None n es)), k, Returned))"
proof (induction es arbitrary: n)
  case Nil
  then show ?case by simp
next
  case (Cons entry rest)
  show ?case
  proof (cases "older_than_since since entry")
    case (Inl err)
    with Cons.prems show ?thesis by simp
  next
    case (Inr older)
    show ?thesis
    proof (cases "older \<or> filter_rejects url_filter (loc entry)")
      case True
      with Inr Cons show ?thesis by auto
    next
      case False
      show ?thesis
      proof (cases "Suc n < k")
        case True
        then have "k - n = Suc (k - Suc n)" by simp
        with True False Inr Cons.IH [of "Suc n"] show ?thesis
          by (simp add: limit_reached_def split: prod.splits)
      next
        case False
        with Cons.prems have "k = Suc n" by simp
        with \<open>\<not> (older \<or> filter_rejects url_filter (loc entry))\<close> Inr show ?thesis
          by (simp add: limit_reached_def split: prod.splits)
      qed
    qed
  qed
qed

lemma until_kth_yield_map_Yield:
  "0 < j \<Longrightarrow>
   until_kth_yield j (map Yield ys @ evs) =
     (if length ys < j then map Yield ys @ until_kth_yield (j - length ys) evs
      else map Yield (take j ys))"
proof (induction ys arbitrary: j)
  case Nil
  then show ?case by simp
next
  case (Cons y ys)
  then show ?case by (cases j) auto
qed

lemma traverse_bounded:
  "m = None \<Longrightarrow> n < k \<Longrightarrow>
   traverse web recursive since url_filter (Some (int k)) queue visited n =
   until_kth_yield (k - n) (traverse web recursive since url_filter m queue visited n)"
proof (induction web recursive since url_filter m queue visited n rule: traverse.induct)
  case (1 web recursive since url_filter max_urls visited n)
  show ?case by simp
next
  case (2 web recursive since url_filter max_urls current_url queue visited n)
  show ?case
  proof (cases "current_url \<in> visited")
    case True
    with 2 show ?thesis by simp
  next
    case False
    show ?thesis
    proof (cases "fetch_and_parse web current_url")
      case FetchFailed
      with 2 False show ?thesis by simp
    next
      case (Document nested ents)
      let ?r = "yield_entries since url_filter None n ents"
      have unb: "snd (snd ?r) \<noteq> Returned" "fst (snd ?r) = n + length (fst ?r)"
        using yield_entries_unbounded [of since url_filter n ents] by simp_all
      have bnd: "yield_entries since url_filter (Some (int k)) n ents =
                   (if n + length (fst ?r) < k then ?r
                    else (take (k - n) (fst ?r), k, Returned))"
        using yield_entries_bounded [OF \<open>n < k\<close>] .
      show ?thesis
      proof (cases "n + length (fst ?r) < k")
        case True
        then have lt: "length (fst ?r) < k - n" by simp
        have ih: "traverse web recursive since url_filter (Some (int k))
                    (if recursive \<and> nested \<noteq> [] then queue @ nested else queue)
                    (insert current_url visited) (n + length (fst ?r)) =
                  until_kth_yield (k - (n + length (fst ?r)))
                    (traverse web recursive since url_filter None
                       (if recursive \<and> nested \<noteq> [] then queue @ nested else queue)
                       (insert current_url visited) (n + length (fst ?r)))"
          using "2.IH"(3) [OF False Document] "2.prems" unb True by simp
        have j: "0 < k - n" using \<open>n < k\<close> by simp
        show ?thesis
          using False Document "2.prems"(1) unb bnd True lt ih
          by (simp add: until_kth_yield_map_Yield [OF j])
      next
        case ge: False
        have j: "0 < k - n" using \<open>n < k\<close> by simp
        from ge have "\<not> length (fst ?r) < k - n" by simp
        then show ?thesis
          using False Document "2.prems"(1) unb bnd ge
          by (simp add: until_kth_yield_map_Yield [OF j])
      qed
    qed
  qed
qed

lemma until_kth_yield_prefix: "prefix (until_kth_yield j evs) evs"
  by (induction j evs rule: until_kth_yield.induct) simp_all

lemma until_kth_yield_yielded:
  "0 < j \<Longrightarrow> yielded (until_kth_yield j evs) = take j (yielded evs)"
proof (induction j evs rule: until_kth_yield.induct)
  case (3 j e evs)
  then show ?case by (cases j) auto
qed simp_all

lemma until_kth_yield_last:
  "0 < j \<Longrightarrow> j \<le> length (yielded evs) \<Longrightarrow>
   until_kth_yield j evs \<noteq> [] \<and> (\<exists>e. last (until_kth_yield j evs) = Yield e)"
proof (induction j evs rule: until_kth_yield.induct)
  case (1 j)
  then show ?case by simp
next
  case (2 j u evs)
  then show ?case by simp
next
  case (3 j e evs)
  then show ?case by (cases "j \<le> 1") auto
qed

lemma fetch_and_parse_referenced:
  "fetch_and_parse web u = Document nested ents \<Longrightarrow> set nested \<subseteq> set (referenced web)"
proof -
  assume a: "fetch_and_parse web u = Document nested ents"
  then have "map_of web u = Some (Document nested ents)"
    by (simp add: fetch_and_parse_def split: option.splits)
  then have "(u, Document nested ents) \<in> set web" by (rule map_of_SomeD)
  then show ?thesis by (force simp add: referenced_def)
qed

lemma traverse_fetches_subset:
  "set (fetches (traverse web recursive since url_filter m queue visited n))
     \<subseteq> set queue \<union> set (referenced web)"
proof (induction web recursive since url_filter m queue visited n rule: traverse.induct)
  case (1 web recursive since url_filter max_urls visited n)
  show ?case by simp
next
  case (2 web recursive since url_filter max_urls current_url queue visited n)
  show ?case
  proof (cases "current_url \<in> visited")
    case True
    with 2 show ?thesis by auto
  next
    case False
    show ?thesis
    proof (cases "fetch_and_parse web current_url")
      case FetchFailed
      with 2 False show ?thesis by auto
    next
      case (Document nested ents)
      note sub = fetch_and_parse_referenced [OF Document]
      show ?thesis
      proof (cases "snd (snd (yield_entries since url_filter max_urls n ents)) = Returned")
        case True
        with False Document show ?thesis
          by (simp add: fetches_append fetches_map_Yield)
      next
        case nr: False
        from "2.IH"(3) [OF False Document nr] sub
        have "set (fetches (traverse web recursive since url_filter max_urls
                 (if recursive \<and> nested \<noteq> [] then queue @ nested else queue)
                 (insert current_url visited)
                 (fst (snd (yield_entries since url_filter max_urls n ents)))))
              \<subseteq> set queue \<union> set (referenced web)"
          by (auto split: if_splits)
        with False Document nr show ?thesis
          by (auto simp add: fetches_append fetches_map_Yield)
      qed
    qed
  qed
qed


text \<open>
  When the bound on \<open>since\<close> can be compared with every \<^verbatim>\<open>lastmod\<close> of a document, the
  entry loop without filter and bound keeps exactly the entries that are not older.
\<close>

lemma yield_entries_since_comparable:
  "\<forall>e \<in> set es. \<exists>b. older_than_since since e = Inr b \<Longrightarrow>
   fst (yield_entries since None None n es) =
     filter (\<lambda>e. older_than_since since e = Inr False) es"
proof (induction es arbitrary: n)
  case Nil
  show ?case by simp
next
  case (Cons entry rest)
  then obtain b where b: "older_than_since since entry = Inr b" by auto
  from Cons have ih: "fst (yield_entries since None None (Suc n) rest) =
                        filter (\<lambda>e. older_than_since since e = Inr False) rest"
    "fst (yield_entries since None None n rest) =
                        filter (\<lambda>e. older_than_since since e = Inr False) rest"
    by simp_all
  show ?case
    using b ih
    by (auto simp add: filter_rejects_def limit_reached_def split: prod.splits)
qed

lemma no_lastmod_never_older: "lastmod e = None \<Longrightarrow> older_than_since since e = Inr False"
  by (simp add: older_than_since_def split: option.splits)

section \<open>Facts about the solver manager\<close>




































section \<open>Facts about visiting a product page\<close>

lemma handle_block_unavailable:
  "\<not> is_available (captcha_solver env) \<Longrightarrow> handle_block env url st = (Inr False, st)"
  by (simp add: handle_block_def)

lemma blocked_without_solver:
  "goto_result env = Loaded \<Longrightarrow> blocked env \<Longrightarrow> \<not> is_available (captcha_solver env) \<Longrightarrow>
   scrape_product_page env url st =
     (None, count_error (st\<lparr>goto_log := goto_log st @ [url]\<rparr>))"
  by (simp add: scrape_product_page_def handle_block_unavailable Let_def)

lemma handle_captcha_errors:
  "consecutive_errors (snd (handle_captcha env st)) = consecutive_errors st"
  by (simp add: handle_captcha_def Let_def)

lemma handle_block_errors:
  "consecutive_errors (snd (handle_block env url st)) = consecutive_errors st"
  using handle_captcha_errors [of env st]
  by (cases "handle_captcha env st")
     (auto simp add: handle_block_def split: sum.splits)

lemma handle_captcha_state_free:
  "fst (handle_captcha env st) = fst (handle_captcha env st')"
  by (simp add: handle_captcha_def Let_def)

lemma extract_product_errors:
  "consecutive_errors (snd (extract_product env st)) = 0"
  by (simp add: extract_product_def Let_def split: option.splits)

lemma scrape_product_page_errors:
  "consecutive_errors (snd (scrape_product_page env url st)) =
     (if visit_fails env url st then consecutive_errors st + 1 else 0)"
proof (cases "goto_result env")
  case Loaded
  let ?st0 = "st\<lparr>goto_log := goto_log st @ [url]\<rparr>"
  show ?thesis
  proof (cases "blocked env")
    case False
    with Loaded show ?thesis
      by (simp add: scrape_product_page_def visit_fails_def Let_def extract_product_errors)
  next
    case True
    obtain res st1 where hb: "handle_block env url ?st0 = (res, st1)"
      by (cases "handle_block env url ?st0")
    from handle_block_errors [of env url ?st0] hb
    have ce: "consecutive_errors st1 = consecutive_errors st" by simp
    show ?thesis
    proof (cases res)
      case (Inl err)
      with Loaded True hb ce show ?thesis
        by (simp add: scrape_product_page_def visit_fails_def Let_def count_error_def)
    next
      case (Inr bypassed)
      with Loaded True hb ce show ?thesis
        by (simp add: scrape_product_page_def visit_fails_def Let_def count_error_def
              extract_product_errors)
    qed
  qed
next
  case PlaywrightTimeout
  then show ?thesis
    by (simp add: scrape_product_page_def visit_fails_def Let_def count_error_def)
next
  case GotoError
  then show ?thesis
    by (simp add: scrape_product_page_def visit_fails_def Let_def count_error_def)
qed

lemma scrape_product_page_failed_none:
  "visit_fails env url st \<Longrightarrow> fst (scrape_product_page env url st) = None"
proof (cases "goto_result env")
  case Loaded
  assume vf: "visit_fails env url st"
  let ?st0 = "st\<lparr>goto_log := goto_log st @ [url]\<rparr>"
  obtain res st1 where hb: "handle_block env url ?st0 = (res, st1)"
    by (cases "handle_block env url ?st0")
  from vf Loaded hb have b: "blocked env" and r: "res \<noteq> Inr True"
    by (simp_all add: visit_fails_def)
  show ?thesis
  proof (cases res)
    case (Inl err)
    with Loaded b hb show ?thesis by (simp add: scrape_product_page_def Let_def)
  next
    case (Inr bypassed)
    with r have "\<not> bypassed" by simp
    with Inr Loaded b hb show ?thesis by (simp add: scrape_product_page_def Let_def)
  qed
next
  case PlaywrightTimeout
  then show ?thesis by (simp add: scrape_product_page_def Let_def)
next
  case GotoError
  then show ?thesis by (simp add: scrape_product_page_def Let_def)
qed

lemma scrape_product_page_record_resets:
  "fst (scrape_product_page env url st) \<noteq> None \<Longrightarrow>
   consecutive_errors (snd (scrape_product_page env url st)) = 0"
  using scrape_product_page_failed_none [of env url st]
        scrape_product_page_errors [of env url st]
  by (cases "visit_fails env url st") simp_all

lemma scrape_all_errors_bounds:
  "0 \<le> consecutive_errors st \<Longrightarrow>
   0 \<le> consecutive_errors (snd (scrape_all visits st)) \<and>
   consecutive_errors (snd (scrape_all visits st)) \<le> consecutive_errors st + int (length visits)"
proof (induction visits arbitrary: st)
  case Nil
  then show ?case by simp
next
  case (Cons v visits)
  obtain env url where v: "v = (env, url)" by (cases v)
  let ?st' = "snd (scrape_product_page env url st)"
  have step: "0 \<le> consecutive_errors ?st'" "consecutive_errors ?st' \<le> consecutive_errors st + 1"
    using Cons.prems scrape_product_page_errors [of env url st] by (simp_all split: if_splits)
  from Cons.IH [OF step(1)] step(2) v show ?case
    by (simp add: case_prod_beta)
qed

section \<open>Claims about sitemap\_parser.py\<close>

text \<open>
  C8. For every URL, \<open>filter_walmart_product_urls\<close> is true exactly when the URL
  contains an item-page marker (\<open>/ip/\<close> or \<open>/produit/\<close>) and none of the disallowed
  markers \<open>/search\<close>, \<open>/recherche\<close>, \<open>/cart\<close>, \<open>/panier\<close>, \<open>/sign-in\<close>, \<open>/account\<close>,
  \<open>/kiosk/\<close>, \<open>+\<close> and \<open>?f=\<close>, where containing is being a contiguous part
  (\<open>sublist\<close>). \<open>/en/ip/widget/12345\<close> is accepted, \<open>/en/ip/widget/12345?f=color\<close> and
  \<open>/search?q=widget\<close> are rejected, and so is an item page carrying any one of the
  disallowed markers.
\<close>

theorem filter_walmart_product_urls_iff:
  "(filter_walmart_product_urls url =
     ((sublist ''/ip/'' url \<or> sublist ''/produit/'' url) \<and>
      \<not> sublist ''/search'' url \<and> \<not> sublist ''/recherche'' url \<and>
      \<not> sublist ''/cart'' url \<and> \<not> sublist ''/panier'' url \<and>
      \<not> sublist ''/sign-in'' url \<and> \<not> sublist ''/account'' url \<and>
      \<not> sublist ''/kiosk/'' url \<and> \<not> sublist ''+'' url \<and> \<not> sublist ''?f='' url)) \<and>
   filter_walmart_product_urls ''/en/ip/widget/12345'' \<and>
   \<not> filter_walmart_product_urls ''/en/ip/widget/12345?f=color'' \<and>
   \<not> filter_walmart_product_urls ''/search?q=widget'' \<and>
   filter_walmart_product_urls ''/fr/produit/chaise/777'' \<and>
   \<not> filter_walmart_product_urls ''/en/help/returns'' \<and>
   \<not> filter_walmart_product_urls ''/search/ip/widget'' \<and>
   \<not> filter_walmart_product_urls ''/recherche/produit/chaise'' \<and>
   \<not> filter_walmart_product_urls ''/en/ip/widget/12345/cart'' \<and>
   \<not> filter_walmart_product_urls ''/fr/produit/chaise/777/panier'' \<and>
   \<not> filter_walmart_product_urls ''/sign-in/ip/widget'' \<and>
   \<not> filter_walmart_product_urls ''/account/ip/widget/12345'' \<and>
   \<not> filter_walmart_product_urls ''/kiosk/ip/widget/12345'' \<and>
   \<not> filter_walmart_product_urls ''/en/ip/widget/12345+red''"
proof -
  have general: "filter_walmart_product_urls url =
     ((sublist ''/ip/'' url \<or> sublist ''/produit/'' url) \<and>
      \<not> sublist ''/search'' url \<and> \<not> sublist ''/recherche'' url \<and>
      \<not> sublist ''/cart'' url \<and> \<not> sublist ''/panier'' url \<and>
      \<not> sublist ''/sign-in'' url \<and> \<not> sublist ''/account'' url \<and>
      \<not> sublist ''/kiosk/'' url \<and> \<not> sublist ''+'' url \<and> \<not> sublist ''?f='' url)"
    unfolding str_contains_sublist [symmetric]
    by (simp add: filter_walmart_product_urls_def disallowed_patterns_def)
  have examples:
    "filter_walmart_product_urls ''/en/ip/widget/12345''"
    "\<not> filter_walmart_product_urls ''/en/ip/widget/12345?f=color''"
    "\<not> filter_walmart_product_urls ''/search?q=widget''"
    "filter_walmart_product_urls ''/fr/produit/chaise/777''"
    "\<not> filter_walmart_product_urls ''/en/help/returns''"
    "\<not> filter_walmart_product_urls ''/search/ip/widget''"
    "\<not> filter_walmart_product_urls ''/recherche/produit/chaise''"
    "\<not> filter_walmart_product_urls ''/en/ip/widget/12345/cart''"
    "\<not> filter_walmart_product_urls ''/fr/produit/chaise/777/panier''"
    "\<not> filter_walmart_product_urls ''/sign-in/ip/widget''"
    "\<not> filter_walmart_product_urls ''/account/ip/widget/12345''"
    "\<not> filter_walmart_product_urls ''/kiosk/ip/widget/12345''"
    "\<not> filter_walmart_product_urls ''/en/ip/widget/12345+red''"
    by (simp_all add: filter_walmart_product_urls_def disallowed_patterns_def)
  from general examples show ?thesis by (intro conjI)
qed

theorem filter_walmart_product_urls_iff_witness:
  "sublist ''/ip/'' ''/en/ip/gadget/42'' \<and>
   filter_walmart_product_urls ''/en/ip/gadget/42'' \<and>
   sublist ''/account'' ''/en/ip/gadget/42/account'' \<and>
   \<not> filter_walmart_product_urls ''/en/ip/gadget/42/account'' \<and>
   sublist ''/cart'' ''/fr/produit/cartable/9'' \<and>
   \<not> filter_walmart_product_urls ''/fr/produit/cartable/9''"
  using filter_walmart_product_urls_iff [of "''/en/ip/gadget/42''"]
        filter_walmart_product_urls_iff [of "''/en/ip/gadget/42/account''"]
        filter_walmart_product_urls_iff [of "''/fr/produit/cartable/9''"]
  unfolding str_contains_sublist [symmetric]
  by simp

text \<open>
  C9. A bound \<^verbatim>\<open>max_urls = 0\<close> is no bound: \<open>parse_sitemap\<close> and \<open>get_product_urls\<close>
  with \<^verbatim>\<open>max_urls = 0\<close> produce what they produce with \<^verbatim>\<open>max_urls = None\<close>, every
  eligible entry; on the sample site that is three entries, not zero.
\<close>

theorem max_urls_zero_is_unbounded:
  "parse_sitemap web url recursive since url_filter (Some 0) =
     parse_sitemap web url recursive since url_filter None \<and>
   get_product_urls web url (Some 0) since = get_product_urls web url None since \<and>
   get_product_urls cyclic_web ''https://shop.example/a.xml'' (Some 0) None =
     [product_entry ''/en/ip/widget/1'' None, product_entry ''/en/ip/widget/2'' None,
      product_entry ''/fr/produit/3'' None]"
proof -
  have a: "parse_sitemap web url recursive since url_filter (Some 0) =
             parse_sitemap web url recursive since url_filter None"
    by (rule parse_sitemap_zero)
  have b: "get_product_urls web url (Some 0) since = get_product_urls web url None since"
    unfolding get_product_urls_def by (simp only: parse_sitemap_zero)
  have c: "get_product_urls cyclic_web ''https://shop.example/a.xml'' (Some 0) None =
     [product_entry ''/en/ip/widget/1'' None, product_entry ''/en/ip/widget/2'' None,
      product_entry ''/fr/produit/3'' None]"
    by code_simp
  from a b c show ?thesis by (intro conjI)
qed

text \<open>
  C3. On every finite table of sitemap documents, cyclic or not, the recursive traversal is
  a total function (its termination is proved with the definition of \<open>traverse\<close>), it
  requests no sitemap URL twice, and it requests only the start URL and URLs that some
  document refers to, so at most one more request than there are references. On two
  indexes that refer to each other it requests each once.
\<close>

theorem parse_sitemap_fetches_once:
  "distinct (fetches (parse_sitemap web url True since url_filter max_urls)) \<and>
   set (fetches (parse_sitemap web url True since url_filter max_urls))
     \<subseteq> insert url (set (referenced web)) \<and>
   length (fetches (parse_sitemap web url True since url_filter max_urls))
     \<le> Suc (length (referenced web)) \<and>
   fetches (parse_sitemap cyclic_web ''https://shop.example/a.xml'' True None None None) =
     [''https://shop.example/a.xml'', ''https://shop.example/b.xml'',
      ''https://shop.example/c.xml'']"
proof -
  let ?fs = "fetches (parse_sitemap web url True since url_filter max_urls)"
  have d: "distinct ?fs"
    using traverse_fetches_fresh [of web True since url_filter max_urls "[url]" "{}" 0]
    by (simp add: parse_sitemap_def)
  have s: "set ?fs \<subseteq> set (url # referenced web)"
    using traverse_fetches_subset [of web True since url_filter max_urls "[url]" "{}" 0]
    by (simp add: parse_sitemap_def)
  have "length ?fs = card (set ?fs)"
    using d by (simp add: distinct_card)
  also have "\<dots> \<le> card (set (url # referenced web))"
    using s by (intro card_mono) simp_all
  also have "\<dots> \<le> length (url # referenced web)"
    by (rule card_length)
  finally have l: "length ?fs \<le> Suc (length (referenced web))" by simp
  have c: "fetches (parse_sitemap cyclic_web ''https://shop.example/a.xml'' True None None None) =
     [''https://shop.example/a.xml'', ''https://shop.example/b.xml'',
      ''https://shop.example/c.xml'']"
    by code_simp
  from d s l c show ?thesis by simp
qed

text \<open>
  C4. For a positive bound \<open>k\<close> and a site from which the unbounded call yields more than
  \<open>k\<close> product entries, \<open>get_product_urls\<close> with \<^verbatim>\<open>max_urls = k\<close> returns exactly \<open>k\<close>
  entries, the first \<open>k\<close> of the unbounded call; the trace of the bounded call is the start
  of the unbounded trace and its last event is a yield, so no request follows the \<open>k\<close>-th
  entry and the URLs still queued are never requested.
\<close>

theorem get_product_urls_stops_at_bound:
  assumes "0 < k" and "k < int (length (get_product_urls web url None since))"
  shows "length (get_product_urls web url (Some k) since) = nat k \<and>
         get_product_urls web url (Some k) since =
           take (nat k) (get_product_urls web url None since) \<and>
         prefix (parse_sitemap web url True since (Some is_product_url) (Some k))
                (parse_sitemap web url True since (Some is_product_url) None) \<and>
         (\<exists>e. last (parse_sitemap web url True since (Some is_product_url) (Some k)) = Yield e)"
proof -
  let ?unb = "parse_sitemap web url True since (Some is_product_url) None"
  let ?bnd = "parse_sitemap web url True since (Some is_product_url) (Some k)"
  from assms(1) have k: "k = int (nat k)" "0 < nat k" by simp_all
  have "traverse web True since (Some is_product_url) (Some (int (nat k))) [url] {} 0 =
          until_kth_yield (nat k - 0)
            (traverse web True since (Some is_product_url) None [url] {} 0)"
    using k(2) by (intro traverse_bounded) simp_all
  with k(1) have eq: "?bnd = until_kth_yield (nat k) ?unb"
    by (simp add: parse_sitemap_def)
  from assms(2) have le: "nat k \<le> length (yielded ?unb)"
    by (simp add: get_product_urls_def)
  have y: "yielded ?bnd = take (nat k) (yielded ?unb)"
    using eq until_kth_yield_yielded [OF k(2)] by simp
  have p: "prefix ?bnd ?unb"
    using eq until_kth_yield_prefix by simp
  have l: "\<exists>e. last ?bnd = Yield e"
    using eq until_kth_yield_last [OF k(2) le] by simp
  from y le p l show ?thesis
    by (simp add: get_product_urls_def)
qed

theorem get_product_urls_stops_at_bound_witness:
  "(0::int) < 2 \<and>
   2 < int (length (get_product_urls cyclic_web ''https://shop.example/a.xml'' None None)) \<and>
   length (get_product_urls cyclic_web ''https://shop.example/a.xml'' (Some 2) None) = 2 \<and>
   (\<exists>e. last (parse_sitemap cyclic_web ''https://shop.example/a.xml'' True None
                 (Some is_product_url) (Some 2)) = Yield e)"
proof -
  have h1: "(0::int) < 2" by simp
  have h2: "2 < int (length (get_product_urls cyclic_web ''https://shop.example/a.xml'' None None))"
    by code_simp
  show ?thesis
    using h1 h2 get_product_urls_stops_at_bound [OF h1 h2] by simp
qed

text \<open>
  C7. The code at an input where the claim fails: \<^verbatim>\<open>since = datetime(2024, 1, 1)\<close> (naive)
  and a URL set whose first entry is dated \<^verbatim>\<open>2024-06-01T00:00:00Z\<close> (aware, newer than
  \<open>since\<close>) and whose second entry has no \<^verbatim>\<open>lastmod\<close>. The comparison raises, the
  handler around the entry loop abandons the document, and neither entry is yielded;
  without \<open>since\<close> both are.
\<close>

theorem since_naive_against_aware_lastmod:
  "yielded (parse_sitemap mixed_web ''https://shop.example/s.xml'' True
              (Some (Naive 1704067200000000)) None None) = [] \<and>
   yielded (parse_sitemap mixed_web ''https://shop.example/s.xml'' True None None None) =
     [product_entry ''/en/ip/widget/1'' (Some (Aware 1717200000000000)),
      product_entry ''/en/ip/widget/2'' None]"
  by code_simp

section \<open>Claims about captcha\_solver.py\<close>








section \<open>Claims about walmart\_canada.py\<close>

text \<open>
  C2. The code at an input where the claim fails. Five visits in a row meet a block while
  no solver is available: each counts one error and returns no record, and the counter
  reaches \<^verbatim>\<open>max_consecutive_errors = 5\<close>. The sixth visit is not refused: the page is
  loaded, its record is returned and the counter is back at 0.
\<close>

theorem visit_after_too_many_errors:
  "fst (scrape_all five_blocked initial_state) = [None, None, None, None, None] \<and>
   consecutive_errors (snd (scrape_all five_blocked initial_state)) = 5 \<and>
   max_consecutive_errors (snd (scrape_all five_blocked initial_state)) = 5 \<and>
   fst (scrape_product_page good_visit ''/en/ip/f/6''
          (snd (scrape_all five_blocked initial_state))) = Some ''Widget'' \<and>
   goto_log (snd (scrape_product_page good_visit ''/en/ip/f/6''
                    (snd (scrape_all five_blocked initial_state)))) =
     [''/en/ip/a/1'', ''/en/ip/b/2'', ''/en/ip/c/3'', ''/en/ip/d/4'', ''/en/ip/e/5'',
      ''/en/ip/f/6''] \<and>
   consecutive_errors (snd (scrape_product_page good_visit ''/en/ip/f/6''
                              (snd (scrape_all five_blocked initial_state)))) = 0"
  by code_simp

text \<open>
  C6. After every visit \<^verbatim>\<open>consecutive_errors\<close> is the old value plus 1 when the visit
  failed (the load raised, or a block stayed unresolved) and 0 otherwise; a failed visit
  returns no record, so a visit that returns a record leaves the counter at 0, also after
  any sequence of earlier visits; along every sequence of visits the counter stays between
  0 and the number of visits made.
\<close>

theorem consecutive_errors_invariant:
  "consecutive_errors (snd (scrape_product_page env url st)) =
     (if visit_fails env url st then consecutive_errors st + 1 else 0) \<and>
   (visit_fails env url st \<longrightarrow> fst (scrape_product_page env url st) = None) \<and>
   (fst (scrape_product_page env url st) \<noteq> None \<longrightarrow>
      consecutive_errors (snd (scrape_product_page env url st)) = 0) \<and>
   (fst (scrape_product_page env url (snd (scrape_all visits st))) \<noteq> None \<longrightarrow>
      consecutive_errors
        (snd (scrape_product_page env url (snd (scrape_all visits st)))) = 0) \<and>
   (0 \<le> consecutive_errors st \<longrightarrow>
      0 \<le> consecutive_errors (snd (scrape_all visits st)) \<and>
      consecutive_errors (snd (scrape_all visits st))
        \<le> consecutive_errors st + int (length visits))"
  using scrape_product_page_errors [of env url st]
        scrape_product_page_failed_none [of env url st]
        scrape_product_page_record_resets [of env url st]
        scrape_product_page_record_resets [of env url "snd (scrape_all visits st)"]
        scrape_all_errors_bounds [of st visits]
  by blast

theorem consecutive_errors_invariant_witness:
  "visit_fails blocked_visit ''/en/ip/a/1'' initial_state \<and>
   consecutive_errors (snd (scrape_product_page blocked_visit ''/en/ip/a/1'' initial_state)) = 1 \<and>
   fst (scrape_product_page good_visit ''/en/ip/f/6''
          (snd (scrape_all five_blocked initial_state))) \<noteq> None \<and>
   consecutive_errors (snd (scrape_product_page good_visit ''/en/ip/f/6''
                              (snd (scrape_all five_blocked initial_state)))) = 0 \<and>
   consecutive_errors (snd (scrape_all five_blocked initial_state)) \<le> 5"
proof -
  have a: "visit_fails blocked_visit ''/en/ip/a/1'' initial_state"
    by code_simp
  have b: "fst (scrape_product_page good_visit ''/en/ip/f/6''
             (snd (scrape_all five_blocked initial_state))) \<noteq> None"
    by code_simp
  have c: "consecutive_errors initial_state = 0" "length five_blocked = 5"
    by (simp_all add: initial_state_def five_blocked_def)
  from a b c
    consecutive_errors_invariant [of blocked_visit "''/en/ip/a/1''" initial_state "[]"]
    consecutive_errors_invariant [of good_visit "''/en/ip/f/6''" initial_state five_blocked]
  show ?thesis by simp
qed

end
